theory Spec2Isabelle
  imports Complex_Main
begin

section \<open>The resilience bridge of examples/hybrid-bridge.py\<close>

text \<open>
  The embedding follows the Python classes \<^verbatim>\<open>RateLimiter\<close>, \<^verbatim>\<open>CircuitBreaker\<close> and
  \<^verbatim>\<open>HybridAgentBridge\<close>. Python numbers (the \<^verbatim>\<open>int\<close> counters apart) are embedded in
  \<^typ>\<open>real\<close>: every value of \<^verbatim>\<open>time.time()\<close> and every token count is a real number, and
  the comparisons of the source are the comparisons of the reals. Each call of
  \<^verbatim>\<open>time.time()\<close> is an input of the model of its own, so no reading is assumed to be later
  than the one before. Mutation is explicit state passing; an exception is a value.
\<close>

subsection \<open>Exceptions and the data classes of agno-prototype.py\<close>

text \<open>
  The instances of class \<^verbatim>\<open>Exception\<close>, which \<^verbatim>\<open>except Exception\<close> handles:
  \<^verbatim>\<open>Exception(msg)\<close> itself, the \<^verbatim>\<open>TypeError\<close> of an arithmetic operation on \<^verbatim>\<open>None\<close>, and
  the \<^verbatim>\<open>ZeroDivisionError\<close> of a division.
\<close>

datatype py_exception = Exception string | TypeError | ZeroDivisionError

text \<open>
  Everything a Python call can raise: an instance of class \<^verbatim>\<open>Exception\<close>, or one of the
  exceptions that derive from \<^verbatim>\<open>BaseException\<close> only. \<^verbatim>\<open>asyncio.CancelledError\<close> is one of
  these from Python 3.8 on, the oldest version that setup.py admits; it is what an
  awaited call raises when its task is cancelled. No \<^verbatim>\<open>except Exception\<close> clause handles
  them.
\<close>

datatype pyexn = Exc py_exception | CancelledError | KeyboardInterrupt | SystemExit

text \<open>\<^verbatim>\<open>isinstance(e, Exception)\<close>.\<close>

fun is_Exception :: "pyexn \<Rightarrow> bool" where
  "is_Exception (Exc e) = True"
| "is_Exception x = False"

record Message =
  msg_content :: string
  msg_timestamp :: real
  user_id :: string
  metadata :: "(string \<times> string) list option"

record Response =
  content :: string
  confidence :: real
  processing_time :: real
  tools_used :: "string list"
  success :: bool

text \<open>
  What awaiting the backend handler does when it is invoked: it returns a response or it
  raises. The handler is external, so its behaviour is an input of the model.
\<close>

datatype outcome = Returns Response | Raises pyexn

text \<open>The backend behaviours that no \<^verbatim>\<open>except Exception\<close> clause handles.\<close>

definition escapes :: "outcome \<Rightarrow> bool" where
  "escapes out = (case out of Returns r \<Rightarrow> False | Raises x \<Rightarrow> \<not> is_Exception x)"

definition py_div :: "real \<Rightarrow> real \<Rightarrow> pyexn + real" where
  "py_div a b = (if b = 0 then Inl (Exc ZeroDivisionError) else Inr (a / b))"

text \<open>Python's \<^verbatim>\<open>int(x)\<close> on a float truncates towards zero.\<close>

definition py_int :: "real \<Rightarrow> int" where
  "py_int x = (if 0 \<le> x then \<lfloor>x\<rfloor> else \<lceil>x\<rceil>)"

subsection \<open>RateLimiter\<close>

record RateLimiter =
  rate :: real
  capacity :: real
  tokens :: real
  last_update :: real

text \<open>\<^verbatim>\<open>RateLimiter.__init__(rate, capacity)\<close>, with the clock reading it stores.\<close>

definition RateLimiter_init :: "real \<Rightarrow> real \<Rightarrow> real \<Rightarrow> RateLimiter" where
  "RateLimiter_init r c now = \<lparr>rate = r, capacity = c, tokens = c, last_update = now\<rparr>"

text \<open>The refill of \<^verbatim>\<open>acquire\<close>: its first four statements.\<close>

definition refill :: "RateLimiter \<Rightarrow> real \<Rightarrow> RateLimiter" where
  "refill l now =
     (let elapsed = now - last_update l
      in l\<lparr>tokens := min (capacity l) (tokens l + elapsed * rate l), last_update := now\<rparr>)"

text \<open>\<^verbatim>\<open>RateLimiter.acquire(tokens)\<close>: the verdict and the limiter after the call.\<close>

definition acquire :: "RateLimiter \<Rightarrow> real \<Rightarrow> real \<Rightarrow> bool \<times> RateLimiter" where
  "acquire l now n =
     (let l1 = refill l now
      in if tokens l1 \<ge> n then (True, l1\<lparr>tokens := tokens l1 - n\<rparr>) else (False, l1))"

text \<open>
  A sequence of \<^verbatim>\<open>acquire\<close> calls, each with its clock reading and its cost; the
  verdicts in order and the limiter after the last call.
\<close>

fun acquire_seq :: "RateLimiter \<Rightarrow> (real \<times> real) list \<Rightarrow> bool list \<times> RateLimiter" where
  "acquire_seq l [] = ([], l)"
| "acquire_seq l ((now, n) # cs) =
     (let (ok, l1) = acquire l now n; (oks, l2) = acquire_seq l1 cs in (ok # oks, l2))"

text \<open>The limiter at every observation point of such a sequence: before and after each call.\<close>

fun acquire_states :: "RateLimiter \<Rightarrow> (real \<times> real) list \<Rightarrow> RateLimiter list" where
  "acquire_states l [] = [l]"
| "acquire_states l ((now, n) # cs) = l # acquire_states (snd (acquire l now n)) cs"

definition tokens_in_range :: "RateLimiter \<Rightarrow> bool" where
  "tokens_in_range l \<longleftrightarrow> 0 \<le> tokens l \<and> tokens l \<le> capacity l"

text \<open>Clock readings that never go backward, starting from the stored refill timestamp.\<close>

fun clock_monotone :: "real \<Rightarrow> (real \<times> real) list \<Rightarrow> bool" where
  "clock_monotone t [] = True"
| "clock_monotone t ((now, n) # cs) = (t \<le> now \<and> clock_monotone now cs)"

subsection \<open>CircuitBreaker\<close>

datatype breaker_state = Closed | Open | HalfOpen

record CircuitBreaker =
  failure_threshold :: int
  timeout :: real
  failures :: int
  last_failure :: "real option"
  state :: breaker_state

definition CircuitBreaker_init :: "int \<Rightarrow> real \<Rightarrow> CircuitBreaker" where
  "CircuitBreaker_init th tmo =
     \<lparr>failure_threshold = th, timeout = tmo, failures = 0, last_failure = None, state = Closed\<rparr>"

text \<open>
  \<^verbatim>\<open>CircuitBreaker.call\<close> up to the point where it awaits the operation: the check of the
  open state. It raises (\<open>Inl\<close>) or lets the call through with the breaker as it is then.
  Subtracting the initial \<^verbatim>\<open>None\<close> of \<^verbatim>\<open>last_failure\<close> is Python's \<^verbatim>\<open>TypeError\<close>.
\<close>

definition call_gate :: "CircuitBreaker \<Rightarrow> real \<Rightarrow> pyexn + CircuitBreaker" where
  "call_gate cb now =
     (if state cb = Open then
        (case last_failure cb of
           None \<Rightarrow> Inl (Exc TypeError)
         | Some lf \<Rightarrow>
             if now - lf > timeout cb then Inr (cb\<lparr>state := HalfOpen\<rparr>)
             else Inl (Exc (Exception ''Circuit breaker is open'')))
      else Inr cb)"

text \<open>
  The rest of \<^verbatim>\<open>call\<close>, from the moment the awaited operation has returned or raised:
  the \<^verbatim>\<open>try\<close> block after the \<^verbatim>\<open>await\<close> and the \<^verbatim>\<open>except Exception\<close> block, which
  re-raises. What is raised outside class \<^verbatim>\<open>Exception\<close> passes the block by: it leaves
  \<^verbatim>\<open>call\<close> with the breaker as it is.
\<close>

definition call_finish ::
  "CircuitBreaker \<Rightarrow> outcome \<Rightarrow> real \<Rightarrow> (pyexn + Response) \<times> CircuitBreaker" where
  "call_finish cb out now =
     (case out of
        Returns r \<Rightarrow>
          (Inr r, if state cb = HalfOpen then cb\<lparr>state := Closed, failures := 0\<rparr> else cb)
      | Raises x \<Rightarrow>
          (case x of
             Exc e \<Rightarrow>
               (let cb1 = cb\<lparr>failures := failures cb + 1, last_failure := Some now\<rparr>
                in (Inl (Exc e),
                    if failures cb1 \<ge> failure_threshold cb1 then cb1\<lparr>state := Open\<rparr>
                    else cb1))
           | _ \<Rightarrow> (Inl x, cb)))"

text \<open>
  The whole of \<^verbatim>\<open>call\<close>. The second component tells whether the operation was invoked;
  \<open>t_gate\<close> and \<open>t_fail\<close> are the two clock readings of the method.
\<close>

definition call ::
  "CircuitBreaker \<Rightarrow> outcome \<Rightarrow> real \<Rightarrow> real \<Rightarrow> (pyexn + Response) \<times> bool \<times> CircuitBreaker" where
  "call cb out t_gate t_fail =
     (case call_gate cb t_gate of
        Inl e \<Rightarrow> (Inl e, False, cb)
      | Inr cb1 \<Rightarrow> (let (res, cb2) = call_finish cb1 out t_fail in (res, True, cb2)))"

text \<open>
  The breakers that the methods can produce from a constructed one. The two halves of
  \<^verbatim>\<open>call\<close> are separate steps, since the \<^verbatim>\<open>await\<close> between them is where another call
  may run; the state \<open>HalfOpen\<close> exists only between the two.
\<close>

inductive reachable :: "CircuitBreaker \<Rightarrow> bool" where
  init: "reachable (CircuitBreaker_init th tmo)"
| gate: "reachable cb \<Longrightarrow> call_gate cb now = Inr cb' \<Longrightarrow> reachable cb'"
| finish: "reachable cb \<Longrightarrow> call_finish cb out now = (res, cb') \<Longrightarrow> reachable cb'"

subsection \<open>HybridAgentBridge\<close>

text \<open>
  The cache key is \<^verbatim>\<open>f"msg:{hash(message.content)}"\<close>: the hash value under a fixed prefix.
  Python's string hash is an input of the model (the parameter \<open>h\<close> below).
\<close>

datatype cache_key = MsgKey int

record cache_entry =
  entry_response :: Response
  entry_timestamp :: real

text \<open>
  What \<^verbatim>\<open>execute\<close> does to its collaborators, in order: the samples handed to
  \<^verbatim>\<open>record_metric\<close> (name and value), the invocation of the backend handler, and the
  metadata handed to \<^verbatim>\<open>end_trace\<close> with the trace identifier.
\<close>

datatype trace_meta = TraceSuccess real "string list" | TraceError py_exception real

datatype event = Metric string real | BackendInvoked | EndTrace int trace_meta

record HybridAgentBridge =
  rate_limiter :: RateLimiter
  circuit_breaker :: CircuitBreaker
  cache :: "cache_key \<rightharpoonup> cache_entry"
  cache_ttl :: real
  request_count :: int
  error_count :: int
  total_latency :: real

text \<open>\<^verbatim>\<open>HybridAgentBridge.__init__\<close>, with the clock reading of its rate limiter.\<close>

definition HybridAgentBridge_init :: "real \<Rightarrow> HybridAgentBridge" where
  "HybridAgentBridge_init now =
     \<lparr>rate_limiter = RateLimiter_init 100 1000 now,
      circuit_breaker = CircuitBreaker_init 5 60,
      cache = Map.empty, cache_ttl = 300,
      request_count = 0, error_count = 0, total_latency = 0\<rparr>"

text \<open>The readings of \<^verbatim>\<open>time.time()\<close> that one \<^verbatim>\<open>execute\<close> can take, one per call site.\<close>

record clock =
  t_trace :: real
  t_start :: real
  t_acquire :: real
  t_cache :: real
  t_gate :: real
  t_fail :: real
  t_store :: real
  t_end :: real

definition start_trace :: "real \<Rightarrow> int" where
  "start_trace now = py_int (now * 1000)"

definition get_cache_key :: "(string \<Rightarrow> int) \<Rightarrow> Message \<Rightarrow> cache_key" where
  "get_cache_key h m = MsgKey (h (msg_content m))"

definition check_cache ::
  "HybridAgentBridge \<Rightarrow> cache_key \<Rightarrow> real \<Rightarrow> Response option \<times> HybridAgentBridge" where
  "check_cache b k now =
     (case cache b k of
        None \<Rightarrow> (None, b)
      | Some entry \<Rightarrow>
          if now - entry_timestamp entry < cache_ttl b then (Some (entry_response entry), b)
          else (None, b\<lparr>cache := (cache b)(k := None)\<rparr>))"

definition update_cache ::
  "HybridAgentBridge \<Rightarrow> cache_key \<Rightarrow> Response \<Rightarrow> real \<Rightarrow> HybridAgentBridge" where
  "update_cache b k r now =
     b\<lparr>cache := (cache b)(k \<mapsto> \<lparr>entry_response = r, entry_timestamp = now\<rparr>)\<rparr>"

text \<open>
  The \<^verbatim>\<open>try\<close> block of \<^verbatim>\<open>execute\<close>: the result (\<open>Inl\<close> when an exception leaves the
  block), the events so far and the bridge as the block leaves it. \<open>out\<close> is what the
  backend handler does if this call reaches it. \<^verbatim>\<open>if cached_response:\<close> tests an instance
  of a data class with no \<^verbatim>\<open>__bool__\<close> or \<^verbatim>\<open>__len__\<close>, which is true for every response,
  so the test is whether the lookup found one. The labels of the \<^verbatim>\<open>confidence\<close> sample
  are not part of the event.
\<close>

definition execute_try ::
  "(string \<Rightarrow> int) \<Rightarrow> HybridAgentBridge \<Rightarrow> clock \<Rightarrow> int \<Rightarrow> Message \<Rightarrow> outcome
     \<Rightarrow> (pyexn + Response) \<times> event list \<times> HybridAgentBridge" where
  "execute_try h b clk trace_id m out =
     (let (ok, rl) = acquire (rate_limiter b) (t_acquire clk) 1;
          b1 = b\<lparr>rate_limiter := rl\<rparr>
      in if \<not> ok then (Inl (Exc (Exception ''Rate limit exceeded - please retry'')), [], b1)
         else
          (let cache_key = get_cache_key h m;
               (cached_response, b2) = check_cache b1 cache_key (t_cache clk)
           in case cached_response of
                Some r \<Rightarrow> (Inr r, [Metric ''cache_hit'' 1], b2)
              | None \<Rightarrow>
                 (let (res, invoked, cb) = call (circuit_breaker b2) out (t_gate clk) (t_fail clk);
                      b3 = b2\<lparr>circuit_breaker := cb\<rparr>
                  in case res of
                       Inl e \<Rightarrow> (Inl e, if invoked then [BackendInvoked] else [], b3)
                     | Inr response \<Rightarrow>
                        (let b4 = update_cache b3 cache_key response (t_store clk);
                             latency = t_end clk - t_start clk;
                             b5 = b4\<lparr>request_count := request_count b4 + 1,
                                     total_latency := total_latency b4 + latency\<rparr>
                         in (Inr response,
                             [BackendInvoked,
                              Metric ''request_success'' 1,
                              Metric ''response_time'' (latency * 1000),
                              Metric ''confidence'' (confidence response),
                              EndTrace trace_id (TraceSuccess latency (tools_used response))],
                             b5)))))"

text \<open>The response that the \<^verbatim>\<open>except\<close> block of \<^verbatim>\<open>execute\<close> builds.\<close>

definition error_response :: "real \<Rightarrow> Response" where
  "error_response latency =
     \<lparr>content = ''I apologize, but I encountered an error. Please try again.'',
      confidence = 0, processing_time = latency, tools_used = [], success = False\<rparr>"

text \<open>
  The \<^verbatim>\<open>except Exception as e\<close> block of \<^verbatim>\<open>execute\<close>. Its division is Python's, which
  raises on a zero divisor, so the block has an exceptional result of its own.
\<close>

definition execute_except ::
  "py_exception \<Rightarrow> HybridAgentBridge \<Rightarrow> clock \<Rightarrow> int
     \<Rightarrow> (pyexn + Response) \<times> event list \<times> HybridAgentBridge" where
  "execute_except e b clk trace_id =
     (let b1 = b\<lparr>error_count := error_count b + 1\<rparr>;
          latency = t_end clk - t_start clk
      in case py_div (of_int (error_count b1)) (of_int (max (request_count b1) 1)) of
           Inl e' \<Rightarrow> (Inl e', [Metric ''request_error'' 1], b1)
         | Inr error_rate \<Rightarrow>
             (Inr (error_response latency),
              [Metric ''request_error'' 1,
               Metric ''error_rate'' error_rate,
               EndTrace trace_id (TraceError e latency)],
              b1))"

text \<open>
  \<^verbatim>\<open>HybridAgentBridge.execute\<close>: \<open>Inr\<close> is the returned response, \<open>Inl\<close> an exception
  that reaches the caller. The \<^verbatim>\<open>except Exception as e\<close> block runs for an instance of
  class \<^verbatim>\<open>Exception\<close> only; anything else leaves \<^verbatim>\<open>execute\<close> as it left the \<^verbatim>\<open>try\<close> block.
\<close>

definition execute ::
  "(string \<Rightarrow> int) \<Rightarrow> HybridAgentBridge \<Rightarrow> clock \<Rightarrow> Message \<Rightarrow> outcome
     \<Rightarrow> (pyexn + Response) \<times> event list \<times> HybridAgentBridge" where
  "execute h b clk m out =
     (let trace_id = start_trace (t_trace clk);
          (res, evs, b1) = execute_try h b clk trace_id m out
      in case res of
           Inr response \<Rightarrow> (Inr response, evs, b1)
         | Inl x \<Rightarrow>
             (case x of
                Exc e \<Rightarrow>
                  (let (res', evs', b2) = execute_except e b1 clk trace_id
                   in (res', evs @ evs', b2))
              | _ \<Rightarrow> (Inl x, evs, b1)))"

text \<open>How often a list of events invokes the backend handler.\<close>

definition backend_calls :: "event list \<Rightarrow> nat" where
  "backend_calls evs = length (filter (\<lambda>ev. ev = BackendInvoked) evs)"

text \<open>The paths of \<^verbatim>\<open>execute\<close>, told by the methods it calls in order.\<close>

definition admitted :: "HybridAgentBridge \<Rightarrow> clock \<Rightarrow> bool" where
  "admitted b clk = fst (acquire (rate_limiter b) (t_acquire clk) 1)"

definition after_admission :: "HybridAgentBridge \<Rightarrow> clock \<Rightarrow> HybridAgentBridge" where
  "after_admission b clk = b\<lparr>rate_limiter := snd (acquire (rate_limiter b) (t_acquire clk) 1)\<rparr>"

definition cache_lookup ::
  "(string \<Rightarrow> int) \<Rightarrow> HybridAgentBridge \<Rightarrow> clock \<Rightarrow> Message \<Rightarrow> Response option" where
  "cache_lookup h b clk m =
     fst (check_cache (after_admission b clk) (get_cache_key h m) (t_cache clk))"

definition after_lookup ::
  "(string \<Rightarrow> int) \<Rightarrow> HybridAgentBridge \<Rightarrow> clock \<Rightarrow> Message \<Rightarrow> HybridAgentBridge" where
  "after_lookup h b clk m =
     snd (check_cache (after_admission b clk) (get_cache_key h m) (t_cache clk))"

subsection \<open>Invariants and scenarios\<close>

text \<open>What the breaker keeps true between its fields: it is closed, or the failure counter
  has reached the threshold and a failure timestamp is stored.\<close>

definition breaker_inv :: "CircuitBreaker \<Rightarrow> bool" where
  "breaker_inv cb \<longleftrightarrow>
     (state cb = Closed \<or> (failure_threshold cb \<le> failures cb \<and> last_failure cb \<noteq> None))"

text \<open>A sequence of complete \<^verbatim>\<open>call\<close>s, each with what its operation does and its two
  clock readings.\<close>

fun calls :: "CircuitBreaker \<Rightarrow> (outcome \<times> real \<times> real) list \<Rightarrow> CircuitBreaker" where
  "calls cb [] = cb"
| "calls cb ((out, tg, tf) # cs) = calls (snd (snd (call cb out tg tf))) cs"

definition boom :: outcome where
  "boom = Raises (Exc (Exception ''backend down''))"

definition sample_response :: Response where
  "sample_response =
     \<lparr>content = ''ok'', confidence = 0.95, processing_time = 0, tools_used = [''parser''],
      success = True\<rparr>"

text \<open>The spec's scenario: threshold 3, timeout 1.0, three failing calls at time 0.\<close>

definition tripped :: CircuitBreaker where
  "tripped = calls (CircuitBreaker_init 3 1) [(boom, 0, 0), (boom, 0, 0), (boom, 0, 0)]"

text \<open>The paths of \<^verbatim>\<open>execute\<close> beyond the cache: whether the check of the open state
  raises, and the breaker with which the backend handler is awaited when it does not.\<close>

definition breaker_rejects :: "HybridAgentBridge \<Rightarrow> clock \<Rightarrow> bool" where
  "breaker_rejects b clk =
     (case call_gate (circuit_breaker b) (t_gate clk) of Inl e \<Rightarrow> True | Inr cb \<Rightarrow> False)"

definition trial_breaker :: "CircuitBreaker \<Rightarrow> CircuitBreaker" where
  "trial_breaker cb = (if state cb = Open then cb\<lparr>state := HalfOpen\<rparr> else cb)"

text \<open>The \<^verbatim>\<open>latency\<close> that both blocks of \<^verbatim>\<open>execute\<close> compute.\<close>

definition latency_of :: "clock \<Rightarrow> real" where
  "latency_of clk = t_end clk - t_start clk"

text \<open>The three aggregate counters that \<^verbatim>\<open>get_metrics\<close> reads.\<close>

definition counters :: "HybridAgentBridge \<Rightarrow> int \<times> real \<times> int" where
  "counters b = (request_count b, total_latency b, error_count b)"

text \<open>A returned response that reports failure: not successful, confidence 0, no tools.\<close>

definition failed_result :: "pyexn + Response \<Rightarrow> bool" where
  "failed_result res =
     (case res of
        Inl e \<Rightarrow> False
      | Inr r \<Rightarrow> \<not> success r \<and> confidence r = 0 \<and> tools_used r = [])"

definition result_content :: "pyexn + Response \<Rightarrow> string option" where
  "result_content res = (case res of Inl e \<Rightarrow> None | Inr r \<Rightarrow> Some (content r))"

text \<open>The exceptions that a list of events hands to \<^verbatim>\<open>end_trace\<close> as the error.\<close>

fun traced_errors :: "event list \<Rightarrow> py_exception list" where
  "traced_errors [] = []"
| "traced_errors (EndTrace tid (TraceError e l) # evs) = e # traced_errors evs"
| "traced_errors (ev # evs) = traced_errors evs"

text \<open>A sequence of \<^verbatim>\<open>execute\<close> calls on one bridge: the results in order, all events, and
  the bridge after the last call.\<close>

fun executes ::
  "(string \<Rightarrow> int) \<Rightarrow> HybridAgentBridge \<Rightarrow> (clock \<times> Message \<times> outcome) list
     \<Rightarrow> (pyexn + Response) list \<times> event list \<times> HybridAgentBridge" where
  "executes h b [] = ([], [], b)"
| "executes h b ((clk, m, out) # cs) =
     (let (res, evs, b1) = execute h b clk m out;
          (ress, evs', b2) = executes h b1 cs
      in (res # ress, evs @ evs', b2))"

text \<open>Concrete inputs: a hash function, a clock that reads \<open>t\<close> at every call site, a
  message, and the response that the prototype's own \<^verbatim>\<open>except\<close> block returns.\<close>

definition sample_hash :: "string \<Rightarrow> int" where
  "sample_hash s = int (length s)"

definition clock_at :: "real \<Rightarrow> clock" where
  "clock_at t =
     \<lparr>t_trace = t, t_start = t, t_acquire = t, t_cache = t, t_gate = t, t_fail = t,
      t_store = t, t_end = t\<rparr>"

definition sample_message :: Message where
  "sample_message =
     \<lparr>msg_content = ''Track my shipment'', msg_timestamp = 0, user_id = ''user-002'',
      metadata = None\<rparr>"

definition failed_response :: Response where
  "failed_response =
     \<lparr>content = ''I apologize, but I encountered an error: boom'', confidence = 0,
      processing_time = 0, tools_used = [''parser''], success = False\<rparr>"

text \<open>Concrete bridges: one just constructed at time 0; one whose bucket a thousand
  admissions at time 0 have emptied; one whose breaker five failing requests at time 0
  have opened; one that has served and cached one request at time 0.\<close>

definition fresh_bridge :: HybridAgentBridge where
  "fresh_bridge = HybridAgentBridge_init 0"

definition drained_limiter :: RateLimiter where
  "drained_limiter = snd (acquire_seq (RateLimiter_init 100 1000 0) (replicate 1000 (0, 1)))"

definition drained_bridge :: HybridAgentBridge where
  "drained_bridge = fresh_bridge\<lparr>rate_limiter := drained_limiter\<rparr>"

definition tripped_bridge :: HybridAgentBridge where
  "tripped_bridge =
     snd (snd (executes sample_hash fresh_bridge (replicate 5 (clock_at 0, sample_message, boom))))"

definition warm_bridge :: HybridAgentBridge where
  "warm_bridge =
     snd (snd (execute sample_hash fresh_bridge (clock_at 0) sample_message
       (Returns sample_response)))"

section \<open>The token bucket\<close>

lemma acquire_tokens_le:
  "0 \<le> n \<Longrightarrow> tokens (snd (acquire l now n)) \<le> capacity (snd (acquire l now n))"
  by (auto simp add: acquire_def refill_def Let_def min_def)

lemma acquire_rate: "rate (snd (acquire l now n)) = rate l"
  by (simp add: acquire_def refill_def Let_def)

lemma acquire_last_update: "last_update (snd (acquire l now n)) = now"
  by (simp add: acquire_def refill_def Let_def)

lemma acquire_tokens_ge:
  assumes "0 \<le> tokens l" "0 \<le> capacity l" "0 \<le> rate l" "last_update l \<le> now"
  shows "0 \<le> tokens (snd (acquire l now n))"
proof -
  have "0 \<le> (now - last_update l) * rate l"
    using assms(3,4) by simp
  with assms(1,2) have "0 \<le> min (capacity l) (tokens l + (now - last_update l) * rate l)"
    by simp
  then show ?thesis
    by (simp add: acquire_def refill_def Let_def)
qed

lemma acquire_in_range:
  assumes "tokens_in_range l" "0 \<le> rate l" "last_update l \<le> now" "0 \<le> n"
  shows "tokens_in_range (snd (acquire l now n))"
proof -
  from assms(1) have "0 \<le> tokens l" "0 \<le> capacity l"
    by (simp_all add: tokens_in_range_def)
  then have "0 \<le> tokens (snd (acquire l now n))"
    using assms(2,3) by (rule acquire_tokens_ge)
  moreover have "tokens (snd (acquire l now n)) \<le> capacity (snd (acquire l now n))"
    using assms(4) by (rule acquire_tokens_le)
  ultimately show ?thesis
    by (simp add: tokens_in_range_def)
qed

lemma acquire_states_in_range:
  assumes "tokens_in_range l" "0 \<le> rate l" "clock_monotone (last_update l) cs"
    and "list_all (\<lambda>(now, n). 0 \<le> n) cs"
  shows "list_all tokens_in_range (acquire_states l cs)"
  using assms
proof (induction cs arbitrary: l)
  case Nil
  then show ?case by simp
next
  case (Cons c cs)
  obtain now n where c: "c = (now, n)" by (cases c)
  let ?l' = "snd (acquire l now n)"
  from Cons.prems c have step: "last_update l \<le> now" "0 \<le> n"
    and rest: "clock_monotone now cs" "list_all (\<lambda>(now, n). 0 \<le> n) cs"
    by simp_all
  have "tokens_in_range ?l'"
    using Cons.prems(1,2) step by (rule acquire_in_range)
  moreover have "0 \<le> rate ?l'"
    using Cons.prems(2) by (simp add: acquire_rate)
  moreover have "clock_monotone (last_update ?l') cs"
    using rest(1) by (simp add: acquire_last_update)
  ultimately have "list_all tokens_in_range (acquire_states ?l' cs)"
    using rest(2) by (rule Cons.IH)
  with Cons.prems(1) c show ?case by simp
qed

lemma acquire_states_le_capacity:
  assumes "tokens l \<le> capacity l" and "list_all (\<lambda>(now, n). 0 \<le> n) cs"
  shows "list_all (\<lambda>l'. tokens l' \<le> capacity l') (acquire_states l cs)"
  using assms
proof (induction cs arbitrary: l)
  case Nil
  then show ?case by simp
next
  case (Cons c cs)
  obtain now n where c: "c = (now, n)" by (cases c)
  let ?l' = "snd (acquire l now n)"
  from Cons.prems c have step: "0 \<le> n" and rest: "list_all (\<lambda>(now, n). 0 \<le> n) cs"
    by simp_all
  from step have "tokens ?l' \<le> capacity ?l'"
    by (rule acquire_tokens_le)
  then have "list_all (\<lambda>l'. tokens l' \<le> capacity l') (acquire_states ?l' cs)"
    using rest by (rule Cons.IH)
  with Cons.prems(1) c show ?case by simp
qed

text \<open>
  C6, as the code has it. \<^verbatim>\<open>acquire\<close> does not clamp the elapsed time: it multiplies
  whatever \<^verbatim>\<open>now - self.last_update\<close> is by the rate. Take a sequence of \<^verbatim>\<open>acquire\<close> calls
  with no negative cost on a limiter that starts within the bounds \<open>0 \<le> tokens \<le> capacity\<close>.
  The upper bound \<open>tokens \<le> capacity\<close> holds at every observation point, whatever the
  clock reads. The lower bound, and so the whole invariant, holds at every observation
  point when the rate is not negative and no clock reading is earlier than the refill
  timestamp before it.
\<close>

theorem tokens_in_range_monotone_clock:
  assumes "tokens_in_range l" and "list_all (\<lambda>(now, n). 0 \<le> n) cs"
  shows "list_all (\<lambda>l'. tokens l' \<le> capacity l') (acquire_states l cs) \<and>
    (0 \<le> rate l \<and> clock_monotone (last_update l) cs \<longrightarrow>
       list_all tokens_in_range (acquire_states l cs))"
proof (intro conjI impI)
  from assms(1) have "tokens l \<le> capacity l"
    by (simp add: tokens_in_range_def)
  then show "list_all (\<lambda>l'. tokens l' \<le> capacity l') (acquire_states l cs)"
    using assms(2) by (rule acquire_states_le_capacity)
next
  assume "0 \<le> rate l \<and> clock_monotone (last_update l) cs"
  with assms show "list_all tokens_in_range (acquire_states l cs)"
    by (simp add: acquire_states_in_range)
qed

text \<open>
  The theorem at a limiter of rate 1 and capacity 10 made at time 0, with two calls at the
  times 1 and 2; and, for the upper bound alone, at the same limiter made at time 100 with
  one call that reads the clock at 0.
\<close>

theorem tokens_in_range_monotone_clock_witness:
  "tokens_in_range (RateLimiter_init 1 10 0) \<and>
   0 \<le> rate (RateLimiter_init 1 10 0) \<and>
   clock_monotone (last_update (RateLimiter_init 1 10 0)) [(1, 1), (2, 1)] \<and>
   list_all tokens_in_range (acquire_states (RateLimiter_init 1 10 0) [(1, 1), (2, 1)]) \<and>
   tokens_in_range (RateLimiter_init 1 10 100) \<and>
   list_all (\<lambda>l'. tokens l' \<le> capacity l') (acquire_states (RateLimiter_init 1 10 100) [(0, 1)])"
proof -
  have a: "tokens_in_range (RateLimiter_init 1 10 0)"
    and a': "tokens_in_range (RateLimiter_init 1 10 100)"
    by (simp_all add: tokens_in_range_def RateLimiter_init_def)
  have b: "0 \<le> rate (RateLimiter_init 1 10 0)"
    by (simp add: RateLimiter_init_def)
  have c: "clock_monotone (last_update (RateLimiter_init 1 10 0)) [(1, 1), (2, 1)]"
    by (simp add: RateLimiter_init_def)
  have d: "list_all (\<lambda>(now, n). (0::real) \<le> n) [(1, 1), (2, 1)]"
    and d': "list_all (\<lambda>(now, n). (0::real) \<le> n) [(0, 1)]"
    by simp_all
  from tokens_in_range_monotone_clock [OF a d] tokens_in_range_monotone_clock [OF a' d']
    a a' b c
  show ?thesis by blast
qed

text \<open>
  C6 as the spec states it fails. A limiter of rate 1 and capacity 10 is made when the
  clock reads 100; the clock is then set back, and the one \<^verbatim>\<open>acquire(1)\<close> that follows
  reads 0. The elapsed time is \<open>- 100\<close>, the refill makes the token count \<open>- 90\<close>, and
  the call leaves it there.
\<close>

theorem clock_backward_negative_tokens:
  "tokens (snd (acquire (RateLimiter_init 1 10 100) 0 1)) = - 90 \<and>
   \<not> list_all tokens_in_range (acquire_states (RateLimiter_init 1 10 100) [(0, 1)])"
  by (simp add: acquire_def refill_def RateLimiter_init_def tokens_in_range_def Let_def)

text \<open>
  C7. \<^verbatim>\<open>acquire(n)\<close> first refills: the token count becomes the old count plus elapsed
  time times rate, capped at the capacity, and the refill timestamp becomes the clock
  reading. It then returns true exactly when the refilled count minus the cost is not
  negative, and deducts the cost in that case; otherwise it returns false and the count
  stays the refilled one. For a bucket of capacity 10 and rate 0, whatever the clock
  reads, ten \<^verbatim>\<open>acquire(1)\<close> calls return true and the eleventh returns false.
\<close>

theorem acquire_refills_then_deducts:
  "(let refilled = min (capacity l) (tokens l + (now - last_update l) * rate l);
        (ok, l') = acquire l now n
    in (ok \<longleftrightarrow> 0 \<le> refilled - n) \<and>
       tokens l' = (if ok then refilled - n else refilled) \<and>
       last_update l' = now \<and> rate l' = rate l \<and> capacity l' = capacity l) \<and>
   fst (acquire_seq (RateLimiter_init 0 10 t0)
      [(t1, 1), (t2, 1), (t3, 1), (t4, 1), (t5, 1), (t6, 1), (t7, 1), (t8, 1), (t9, 1),
       (t10, 1), (t11, 1)]) =
     [True, True, True, True, True, True, True, True, True, True, False]"
  by (simp add: acquire_def refill_def RateLimiter_init_def Let_def)

section \<open>The circuit breaker\<close>

lemma breaker_inv_init: "breaker_inv (CircuitBreaker_init th tmo)"
  by (simp add: breaker_inv_def CircuitBreaker_init_def)

lemma breaker_inv_gate: "breaker_inv cb \<Longrightarrow> call_gate cb now = Inr cb' \<Longrightarrow> breaker_inv cb'"
  by (auto simp: breaker_inv_def call_gate_def split: if_splits option.splits)

lemma breaker_inv_finish:
  "breaker_inv cb \<Longrightarrow> call_finish cb out now = (res, cb') \<Longrightarrow> breaker_inv cb'"
  by (cases out)
    (auto simp: breaker_inv_def call_finish_def Let_def split: if_splits pyexn.splits)

lemma reachable_breaker_inv: "reachable cb \<Longrightarrow> breaker_inv cb"
proof (induction rule: reachable.induct)
  case (init th tmo)
  show ?case by (rule breaker_inv_init)
next
  case (gate cb now cb')
  then show ?case by (blast intro: breaker_inv_gate)
next
  case (finish cb out now res cb')
  then show ?case by (blast intro: breaker_inv_finish)
qed

lemma reachable_call:
  assumes "reachable cb"
  shows "reachable (snd (snd (call cb out tg tf)))"
proof (cases "call_gate cb tg")
  case (Inl e)
  with assms show ?thesis by (simp add: call_def)
next
  case (Inr cb1)
  with assms have "reachable cb1" by (blast intro: reachable.gate)
  then have "reachable (snd (call_finish cb1 out tf))"
    by (rule reachable.finish) (rule prod.collapse [symmetric])
  with Inr show ?thesis by (simp add: call_def split_beta)
qed

lemma reachable_calls: "reachable cb \<Longrightarrow> reachable (calls cb cs)"
  by (induction cb cs rule: calls.induct) (simp_all add: reachable_call)

lemma tripped_eq:
  "tripped =
     \<lparr>failure_threshold = 3, timeout = 1, failures = 3, last_failure = Some 0, state = Open\<rparr>"
  by (simp add: tripped_def boom_def call_def call_gate_def call_finish_def
      CircuitBreaker_init_def)

lemma reachable_tripped: "reachable tripped"
  unfolding tripped_def by (rule reachable_calls) (rule reachable.init)

text \<open>
  C4, as the code has it. The test of the open state is \<^verbatim>\<open>time.time() - self.last_failure >
  self.timeout\<close>, a strict comparison. While the breaker is open (with the failure
  timestamp that an open breaker has), \<^verbatim>\<open>call\<close> raises "Circuit breaker is open" without
  invoking the operation and leaves the breaker as it is whenever now - last_failure is
  at most the timeout; whenever now - last_failure is greater than the timeout, the breaker
  becomes half-open and the call goes on to invoke the operation, as a trial.
\<close>

theorem open_breaker_gate:
  assumes "state cb = Open" and "last_failure cb = Some lf"
  shows "(now - lf \<le> timeout cb \<longrightarrow>
            call cb out now tf = (Inl (Exc (Exception ''Circuit breaker is open'')), False, cb)) \<and>
         (now - lf > timeout cb \<longrightarrow>
            call_gate cb now = Inr (cb\<lparr>state := HalfOpen\<rparr>) \<and>
            call cb out now tf =
              (fst (call_finish (cb\<lparr>state := HalfOpen\<rparr>) out tf), True,
               snd (call_finish (cb\<lparr>state := HalfOpen\<rparr>) out tf)))"
  using assms by (simp add: call_def call_gate_def split_beta)

text \<open>
  The theorem in the spec's scenario: after three failures at time 0 with threshold 3 and
  timeout 1.0, a call at 0.5 is rejected without invoking the backend and a call at 1.1
  goes through as the trial.
\<close>

theorem open_breaker_gate_witness:
  "state tripped = Open \<and> last_failure tripped = Some 0 \<and> timeout tripped = 1 \<and>
   call tripped (Returns sample_response) 0.5 0.5 =
     (Inl (Exc (Exception ''Circuit breaker is open'')), False, tripped) \<and>
   call_gate tripped 1.1 = Inr (tripped\<lparr>state := HalfOpen\<rparr>) \<and>
   fst (snd (call tripped (Returns sample_response) 1.1 1.1))"
proof -
  have a: "state tripped = Open" and b: "last_failure tripped = Some 0"
    and c: "timeout tripped = 1"
    by (simp_all add: tripped_eq)
  from open_breaker_gate [OF a b, of "0.5" "Returns sample_response" "0.5"]
    open_breaker_gate [OF a b, of "1.1" "Returns sample_response" "1.1"] a b c
  show ?thesis by simp
qed

text \<open>
  C4 as the spec states it fails where now - last_failure equals the timeout. In the same
  scenario a call made when the clock reads exactly 1 has now - last_failure \<open>\<ge>\<close> timeout,
  and the breaker still rejects it: the operation is not invoked and the breaker does not
  become half-open.
\<close>

theorem open_breaker_rejects_at_timeout:
  "state tripped = Open \<and> last_failure tripped = Some 0 \<and> timeout tripped = 1 \<and>
   1 - 0 \<ge> timeout tripped \<and>
   call tripped (Returns sample_response) 1 1 =
     (Inl (Exc (Exception ''Circuit breaker is open'')), False, tripped) \<and>
   call_gate tripped 1 \<noteq> Inr (tripped\<lparr>state := HalfOpen\<rparr>)"
  by (simp add: tripped_eq call_def call_gate_def)

text \<open>
  C5. For every breaker that the methods can produce and that is half-open: when the trial
  operation returns, the breaker becomes closed and the failure counter becomes 0; when
  the trial operation fails, that is, raises what the breaker's \<^verbatim>\<open>except Exception\<close>
  block handles, the breaker becomes open again, the failure timestamp becomes the current
  clock reading, the counter goes up by one, and the exception is re-raised.
\<close>

theorem half_open_trial:
  assumes "reachable cb" and "state cb = HalfOpen"
  shows "call_finish cb (Returns r) now = (Inr r, cb\<lparr>state := Closed, failures := 0\<rparr>) \<and>
         call_finish cb (Raises (Exc e)) now =
           (Inl (Exc e),
            cb\<lparr>failures := failures cb + 1, last_failure := Some now, state := Open\<rparr>)"
proof -
  from assms(1) have "breaker_inv cb" by (rule reachable_breaker_inv)
  with assms(2) have "failure_threshold cb \<le> failures cb"
    by (simp add: breaker_inv_def)
  with assms(2) show ?thesis
    by (simp add: call_finish_def Let_def)
qed

text \<open>
  The theorem at the half-open breaker of the scenario above, reached by the check of a
  call at time 1.1; the trial ends at time 2.
\<close>

theorem half_open_trial_witness:
  "reachable (tripped\<lparr>state := HalfOpen\<rparr>) \<and>
   state (tripped\<lparr>state := HalfOpen\<rparr>) = HalfOpen \<and>
   state (snd (call_finish (tripped\<lparr>state := HalfOpen\<rparr>) (Returns sample_response) 2)) = Closed \<and>
   failures (snd (call_finish (tripped\<lparr>state := HalfOpen\<rparr>) (Returns sample_response) 2)) = 0 \<and>
   state (snd (call_finish (tripped\<lparr>state := HalfOpen\<rparr>) boom 2)) = Open \<and>
   last_failure (snd (call_finish (tripped\<lparr>state := HalfOpen\<rparr>) boom 2)) = Some 2"
proof -
  have "call_gate tripped 1.1 = Inr (tripped\<lparr>state := HalfOpen\<rparr>)"
    by (simp add: tripped_eq call_gate_def)
  with reachable_tripped have a: "reachable (tripped\<lparr>state := HalfOpen\<rparr>)"
    by (rule reachable.gate)
  have b: "state (tripped\<lparr>state := HalfOpen\<rparr>) = HalfOpen" by simp
  from half_open_trial [OF a b, of sample_response 2 "Exception ''backend down''"] a
  show ?thesis by (simp add: boom_def)
qed

section \<open>The bridge\<close>

subsection \<open>The paths of execute\<close>

lemma after_admission_simps [simp]:
  "circuit_breaker (after_admission b clk) = circuit_breaker b"
  "cache (after_admission b clk) = cache b"
  "cache_ttl (after_admission b clk) = cache_ttl b"
  "request_count (after_admission b clk) = request_count b"
  "error_count (after_admission b clk) = error_count b"
  "total_latency (after_admission b clk) = total_latency b"
  by (simp_all add: after_admission_def)

lemma check_cache_frame:
  "circuit_breaker (snd (check_cache b k now)) = circuit_breaker b"
  "rate_limiter (snd (check_cache b k now)) = rate_limiter b"
  "cache_ttl (snd (check_cache b k now)) = cache_ttl b"
  "request_count (snd (check_cache b k now)) = request_count b"
  "error_count (snd (check_cache b k now)) = error_count b"
  "total_latency (snd (check_cache b k now)) = total_latency b"
  by (simp_all add: check_cache_def split: option.splits)

lemma after_lookup_simps [simp]:
  "circuit_breaker (after_lookup h b clk m) = circuit_breaker b"
  "cache_ttl (after_lookup h b clk m) = cache_ttl b"
  "request_count (after_lookup h b clk m) = request_count b"
  "error_count (after_lookup h b clk m) = error_count b"
  "total_latency (after_lookup h b clk m) = total_latency b"
  by (simp_all add: after_lookup_def check_cache_frame)

text \<open>The \<^verbatim>\<open>except\<close> block never raises: its divisor is at least 1.\<close>

lemma execute_except_returns:
  "execute_except e b clk tid =
     (Inr (error_response (latency_of clk)),
      [Metric ''request_error'' 1,
       Metric ''error_rate'' (of_int (error_count b + 1) / of_int (max (request_count b) 1)),
       EndTrace tid (TraceError e (latency_of clk))],
      b\<lparr>error_count := error_count b + 1\<rparr>)"
proof -
  have "(of_int (max (request_count b) 1) :: real) \<noteq> 0"
    by simp
  then show ?thesis
    by (simp add: execute_except_def py_div_def Let_def latency_of_def)
qed

lemma execute_try_unfold:
  "execute_try h b clk tid m out =
     (if \<not> admitted b clk
      then (Inl (Exc (Exception ''Rate limit exceeded - please retry'')), [],
            after_admission b clk)
      else case cache_lookup h b clk m of
        Some r \<Rightarrow> (Inr r, [Metric ''cache_hit'' 1], after_lookup h b clk m)
      | None \<Rightarrow>
         (case call (circuit_breaker b) out (t_gate clk) (t_fail clk) of
            (Inl e, invoked, cb) \<Rightarrow>
              (Inl e, if invoked then [BackendInvoked] else [],
               (after_lookup h b clk m)\<lparr>circuit_breaker := cb\<rparr>)
          | (Inr r, invoked, cb) \<Rightarrow>
              (Inr r,
               [BackendInvoked, Metric ''request_success'' 1,
                Metric ''response_time'' (latency_of clk * 1000),
                Metric ''confidence'' (confidence r),
                EndTrace tid (TraceSuccess (latency_of clk) (tools_used r))],
               (update_cache ((after_lookup h b clk m)\<lparr>circuit_breaker := cb\<rparr>)
                  (get_cache_key h m) r (t_store clk))
                 \<lparr>request_count := request_count b + 1,
                  total_latency := total_latency b + latency_of clk\<rparr>)))"
  by (simp add: execute_try_def admitted_def after_admission_def cache_lookup_def
      after_lookup_def latency_of_def update_cache_def Let_def split_beta check_cache_frame
      split: option.splits sum.splits)

lemma call_rejected:
  "call_gate cb tg = Inl e \<Longrightarrow> call cb out tg tf = (Inl e, False, cb)"
  by (simp add: call_def)

lemma call_passed:
  "call_gate cb tg = Inr cb1 \<Longrightarrow>
   call cb out tg tf = (fst (call_finish cb1 out tf), True, snd (call_finish cb1 out tf))"
  by (simp add: call_def split_beta)

lemma call_finish_raises: "fst (call_finish cb (Raises x) tf) = Inl x"
  by (cases x) (simp_all add: call_finish_def Let_def)

lemma call_finish_escapes:
  "\<not> is_Exception x \<Longrightarrow> call_finish cb (Raises x) tf = (Inl x, cb)"
  by (cases x) (simp_all add: call_finish_def)

lemma trial_returns:
  "call_finish (trial_breaker cb) (Returns r) tf =
     (Inr r, if state cb = Closed then cb else cb\<lparr>state := Closed, failures := 0\<rparr>)"
  by (cases "state cb") (simp_all add: call_finish_def trial_breaker_def)

lemma gate_rejects:
  assumes "breaker_rejects b clk"
  shows "\<exists>e. call_gate (circuit_breaker b) (t_gate clk) = Inl (Exc e)"
  using assms
  by (auto simp: breaker_rejects_def call_gate_def split: if_splits option.splits)

lemma gate_passes:
  assumes "\<not> breaker_rejects b clk"
  shows "call_gate (circuit_breaker b) (t_gate clk) = Inr (trial_breaker (circuit_breaker b))"
  using assms
  by (auto simp: breaker_rejects_def call_gate_def trial_breaker_def split: option.splits)

lemma execute_rate_limited:
  assumes "\<not> admitted b clk"
  shows "execute h b clk m out =
     (Inr (error_response (latency_of clk)),
      [Metric ''request_error'' 1,
       Metric ''error_rate'' (of_int (error_count b + 1) / of_int (max (request_count b) 1)),
       EndTrace (start_trace (t_trace clk))
         (TraceError (Exception ''Rate limit exceeded - please retry'') (latency_of clk))],
      (after_admission b clk)\<lparr>error_count := error_count b + 1\<rparr>)"
  using assms by (simp add: execute_def execute_try_unfold execute_except_returns)

lemma execute_cache_hit:
  assumes "admitted b clk" and "cache_lookup h b clk m = Some r"
  shows "execute h b clk m out = (Inr r, [Metric ''cache_hit'' 1], after_lookup h b clk m)"
  using assms by (simp add: execute_def execute_try_unfold)

lemma execute_breaker_rejects:
  assumes "admitted b clk" and "cache_lookup h b clk m = None"
    and "call_gate (circuit_breaker b) (t_gate clk) = Inl (Exc e)"
  shows "execute h b clk m out =
     (Inr (error_response (latency_of clk)),
      [Metric ''request_error'' 1,
       Metric ''error_rate'' (of_int (error_count b + 1) / of_int (max (request_count b) 1)),
       EndTrace (start_trace (t_trace clk)) (TraceError e (latency_of clk))],
      (after_lookup h b clk m)\<lparr>error_count := error_count b + 1\<rparr>)"
proof -
  have "call (circuit_breaker b) out (t_gate clk) (t_fail clk) =
      (Inl (Exc e), False, circuit_breaker (after_lookup h b clk m))"
    using assms(3) by (simp add: call_rejected)
  with assms(1,2) show ?thesis
    by (simp add: execute_def execute_try_unfold execute_except_returns)
qed

lemma execute_backend_raises:
  assumes "admitted b clk" and "cache_lookup h b clk m = None"
    and "\<not> breaker_rejects b clk"
  shows "execute h b clk m (Raises (Exc e)) =
     (Inr (error_response (latency_of clk)),
      [BackendInvoked, Metric ''request_error'' 1,
       Metric ''error_rate'' (of_int (error_count b + 1) / of_int (max (request_count b) 1)),
       EndTrace (start_trace (t_trace clk)) (TraceError e (latency_of clk))],
      (after_lookup h b clk m)
        \<lparr>circuit_breaker :=
           snd (call_finish (trial_breaker (circuit_breaker b)) (Raises (Exc e)) (t_fail clk)),
         error_count := error_count b + 1\<rparr>)"
proof -
  have "call (circuit_breaker b) (Raises (Exc e)) (t_gate clk) (t_fail clk) =
      (Inl (Exc e), True,
       snd (call_finish (trial_breaker (circuit_breaker b)) (Raises (Exc e)) (t_fail clk)))"
    using gate_passes [OF assms(3)] by (simp add: call_passed call_finish_raises)
  with assms(1,2) show ?thesis
    by (simp add: execute_def execute_try_unfold execute_except_returns)
qed

lemma execute_backend_escapes:
  assumes "admitted b clk" and "cache_lookup h b clk m = None"
    and "\<not> breaker_rejects b clk" and "\<not> is_Exception x"
  shows "execute h b clk m (Raises x) =
     (Inl x, [BackendInvoked],
      (after_lookup h b clk m)\<lparr>circuit_breaker := trial_breaker (circuit_breaker b)\<rparr>)"
proof -
  have "call (circuit_breaker b) (Raises x) (t_gate clk) (t_fail clk) =
      (Inl x, True, trial_breaker (circuit_breaker b))"
    using gate_passes [OF assms(3)] assms(4) by (simp add: call_passed call_finish_escapes)
  with assms(1,2,4) show ?thesis
    by (cases x) (simp_all add: execute_def execute_try_unfold)
qed

lemma execute_backend_returns:
  assumes "admitted b clk" and "cache_lookup h b clk m = None"
    and "\<not> breaker_rejects b clk"
  shows "execute h b clk m (Returns r) =
     (Inr r,
      [BackendInvoked, Metric ''request_success'' 1,
       Metric ''response_time'' (latency_of clk * 1000),
       Metric ''confidence'' (confidence r),
       EndTrace (start_trace (t_trace clk)) (TraceSuccess (latency_of clk) (tools_used r))],
      (after_lookup h b clk m)
        \<lparr>circuit_breaker :=
           (if state (circuit_breaker b) = Closed then circuit_breaker b
            else (circuit_breaker b)\<lparr>state := Closed, failures := 0\<rparr>),
         cache := (cache (after_lookup h b clk m))
           (get_cache_key h m \<mapsto> \<lparr>entry_response = r, entry_timestamp = t_store clk\<rparr>),
         request_count := request_count b + 1,
         total_latency := total_latency b + latency_of clk\<rparr>)"
proof -
  have "call (circuit_breaker b) (Returns r) (t_gate clk) (t_fail clk) =
      (Inr r, True,
       if state (circuit_breaker b) = Closed then circuit_breaker b
       else (circuit_breaker b)\<lparr>state := Closed, failures := 0\<rparr>)"
    using gate_passes [OF assms(3)] by (simp add: call_passed trial_returns)
  with assms(1,2) show ?thesis
    by (simp add: execute_def execute_try_unfold update_cache_def)
qed

lemma cache_lookup_hit:
  assumes "cache b k = Some entry" and "t_cache clk - entry_timestamp entry < cache_ttl b"
    and "get_cache_key h m = k"
  shows "cache_lookup h b clk m = Some (entry_response entry)"
  using assms by (simp add: cache_lookup_def check_cache_def)

lemma cache_lookup_Some:
  assumes "cache_lookup h b clk m = Some r"
  shows "\<exists>entry. cache b (get_cache_key h m) = Some entry \<and> entry_response entry = r \<and>
           after_lookup h b clk m = after_admission b clk"
  using assms
  by (auto simp: cache_lookup_def after_lookup_def check_cache_def
      split: option.splits if_splits)

lemma get_cache_key_content:
  "msg_content m2 = msg_content m1 \<Longrightarrow> get_cache_key h m2 = get_cache_key h m1"
  by (simp add: get_cache_key_def)

lemma failed_error_response: "failed_result (Inr (error_response l))"
  by (simp add: failed_result_def error_response_def)

subsection \<open>The concrete bridges\<close>

lemma clock_at_simps:
  "t_trace (clock_at t) = t" "t_start (clock_at t) = t" "t_acquire (clock_at t) = t"
  "t_cache (clock_at t) = t" "t_gate (clock_at t) = t" "t_fail (clock_at t) = t"
  "t_store (clock_at t) = t" "t_end (clock_at t) = t"
  by (simp_all add: clock_at_def)

lemma acquire_same_instant:
  "1 \<le> tokens l \<Longrightarrow> tokens l \<le> capacity l \<Longrightarrow>
   acquire l (last_update l) 1 = (True, l\<lparr>tokens := tokens l - 1\<rparr>)"
  by (simp add: acquire_def refill_def Let_def)

lemma acquire_seq_same_instant:
  "real n \<le> tokens l \<Longrightarrow> tokens l \<le> capacity l \<Longrightarrow>
   snd (acquire_seq l (replicate n (last_update l, 1))) = l\<lparr>tokens := tokens l - real n\<rparr>"
proof (induction n arbitrary: l)
  case 0
  then show ?case by simp
next
  case (Suc n)
  let ?l' = "l\<lparr>tokens := tokens l - 1\<rparr>"
  from Suc.prems have a: "acquire l (last_update l) 1 = (True, ?l')"
    by (intro acquire_same_instant) simp_all
  from Suc.prems have "real n \<le> tokens ?l'" "tokens ?l' \<le> capacity ?l'"
    by simp_all
  then have "snd (acquire_seq ?l' (replicate n (last_update ?l', 1))) =
      ?l'\<lparr>tokens := tokens ?l' - real n\<rparr>"
    by (rule Suc.IH)
  with a show ?case by (simp add: split_beta)
qed

lemma drained_limiter_eq:
  "drained_limiter = \<lparr>rate = 100, capacity = 1000, tokens = 0, last_update = 0\<rparr>"
proof -
  have "snd (acquire_seq (RateLimiter_init 100 1000 0)
      (replicate 1000 (last_update (RateLimiter_init 100 1000 0), 1))) =
    (RateLimiter_init 100 1000 0)\<lparr>tokens := tokens (RateLimiter_init 100 1000 0) - real 1000\<rparr>"
    by (rule acquire_seq_same_instant) (simp_all add: RateLimiter_init_def)
  then show ?thesis
    by (simp add: drained_limiter_def RateLimiter_init_def)
qed

lemma fresh_bridge_eq:
  "fresh_bridge =
     \<lparr>rate_limiter = \<lparr>rate = 100, capacity = 1000, tokens = 1000, last_update = 0\<rparr>,
      circuit_breaker = \<lparr>failure_threshold = 5, timeout = 60, failures = 0,
        last_failure = None, state = Closed\<rparr>,
      cache = Map.empty, cache_ttl = 300, request_count = 0, error_count = 0,
      total_latency = 0\<rparr>"
  by (simp add: fresh_bridge_def HybridAgentBridge_init_def RateLimiter_init_def
      CircuitBreaker_init_def)

lemmas eval_defs =
  execute_def execute_try_def execute_except_def acquire_def refill_def check_cache_def
  update_cache_def call_def call_gate_def call_finish_def get_cache_key_def py_div_def
  start_trace_def py_int_def clock_at_def sample_hash_def sample_message_def boom_def
  error_response_def Let_def

lemma tripped_bridge_eq:
  "tripped_bridge =
     \<lparr>rate_limiter = \<lparr>rate = 100, capacity = 1000, tokens = 995, last_update = 0\<rparr>,
      circuit_breaker = \<lparr>failure_threshold = 5, timeout = 60, failures = 5,
        last_failure = Some 0, state = Open\<rparr>,
      cache = Map.empty, cache_ttl = 300, request_count = 0, error_count = 5,
      total_latency = 0\<rparr>"
  by (simp add: tripped_bridge_def fresh_bridge_eq eval_defs numeral_eq_Suc)

lemma warm_bridge_eq:
  "warm_bridge =
     \<lparr>rate_limiter = \<lparr>rate = 100, capacity = 1000, tokens = 999, last_update = 0\<rparr>,
      circuit_breaker = \<lparr>failure_threshold = 5, timeout = 60, failures = 0,
        last_failure = None, state = Closed\<rparr>,
      cache = [MsgKey 17 \<mapsto> \<lparr>entry_response = sample_response, entry_timestamp = 0\<rparr>],
      cache_ttl = 300, request_count = 1, error_count = 0, total_latency = 0\<rparr>"
  by (simp add: warm_bridge_def fresh_bridge_eq eval_defs)

lemma sample_key: "get_cache_key sample_hash sample_message = MsgKey 17"
  by (simp add: get_cache_key_def sample_hash_def sample_message_def)

lemma drained_not_admitted: "\<not> admitted drained_bridge (clock_at 0)"
  by (simp add: admitted_def drained_bridge_def drained_limiter_eq acquire_def refill_def
      clock_at_def Let_def)

lemma fresh_admitted: "admitted fresh_bridge (clock_at 0)"
  by (simp add: admitted_def fresh_bridge_eq acquire_def refill_def clock_at_def Let_def)

lemma fresh_miss: "cache_lookup sample_hash fresh_bridge (clock_at 0) sample_message = None"
  by (simp add: cache_lookup_def after_admission_def fresh_bridge_eq check_cache_def)

lemma fresh_passes: "\<not> breaker_rejects fresh_bridge (clock_at 0)"
  by (simp add: breaker_rejects_def fresh_bridge_eq call_gate_def clock_at_def)

lemma tripped_admitted: "0 \<le> t \<Longrightarrow> admitted tripped_bridge (clock_at t)"
  by (simp add: admitted_def tripped_bridge_eq acquire_def refill_def clock_at_def Let_def)

lemma tripped_miss: "cache_lookup sample_hash tripped_bridge (clock_at t) sample_message = None"
  by (simp add: cache_lookup_def after_admission_def tripped_bridge_eq check_cache_def)

lemma tripped_open:
  "state (circuit_breaker tripped_bridge) = Open"
  "last_failure (circuit_breaker tripped_bridge) = Some 0"
  "timeout (circuit_breaker tripped_bridge) = 60"
  by (simp_all add: tripped_bridge_eq)

lemma tripped_rejects: "breaker_rejects tripped_bridge (clock_at 1)"
  by (simp add: breaker_rejects_def tripped_bridge_eq call_gate_def clock_at_def)

lemma tripped_passes_later: "\<not> breaker_rejects tripped_bridge (clock_at 61)"
  by (simp add: breaker_rejects_def tripped_bridge_eq call_gate_def clock_at_def)

lemma warm_admitted:
  "0 \<le> t \<Longrightarrow> admitted warm_bridge (clock_at t)"
  "0 \<le> t \<Longrightarrow> admitted warm_bridge ((clock_at t)\<lparr>t_end := t'\<rparr>)"
  by (simp_all add: admitted_def warm_bridge_eq acquire_def refill_def clock_at_def Let_def)

lemma warm_entry:
  "cache warm_bridge (get_cache_key sample_hash sample_message) =
     Some \<lparr>entry_response = sample_response, entry_timestamp = 0\<rparr>"
  by (simp add: warm_bridge_eq sample_key)

lemma warm_hit:
  "cache_lookup sample_hash warm_bridge ((clock_at 1)\<lparr>t_end := 2\<rparr>) sample_message =
     Some sample_response"
  using cache_lookup_hit [OF warm_entry _ refl, of "(clock_at 1)\<lparr>t_end := 2\<rparr>"]
  by (simp add: warm_bridge_eq clock_at_def)

lemma warm_bridge_first:
  "execute sample_hash fresh_bridge (clock_at 0) sample_message (Returns sample_response) =
    (Inr sample_response,
     [BackendInvoked, Metric ''request_success'' 1, Metric ''response_time'' 0,
      Metric ''confidence'' (confidence sample_response),
      EndTrace 0 (TraceSuccess 0 (tools_used sample_response))],
     warm_bridge)"
proof -
  have "execute sample_hash fresh_bridge (clock_at 0) sample_message (Returns sample_response) =
    (Inr sample_response,
     [BackendInvoked, Metric ''request_success'' 1, Metric ''response_time'' 0,
      Metric ''confidence'' (confidence sample_response),
      EndTrace 0 (TraceSuccess 0 (tools_used sample_response))],
     snd (snd (execute sample_hash fresh_bridge (clock_at 0) sample_message
       (Returns sample_response))))"
    unfolding execute_backend_returns [OF fresh_admitted fresh_miss fresh_passes]
    by (simp add: latency_of_def start_trace_def py_int_def clock_at_simps)
  then show ?thesis by (simp only: warm_bridge_def)
qed

subsection \<open>Failures become failed results\<close>

text \<open>
  C1, as the code has it. Both handlers on the way, in \<^verbatim>\<open>CircuitBreaker.call\<close> and in
  \<^verbatim>\<open>execute\<close>, are \<^verbatim>\<open>except Exception\<close>. \<^verbatim>\<open>execute\<close> returns a response, and raises
  nothing, in every case but one: the request is admitted, the cache does not answer it,
  the breaker lets it through, and the backend call raises something outside class
  \<^verbatim>\<open>Exception\<close> (the cancellation of the awaited call is one such), which then reaches
  the caller. When admission is rejected, when the request reaches the breaker and the
  breaker raises (it is open and the call is not a trial; the backend is then not
  invoked), and when the backend handler is invoked and raises an instance of class
  \<^verbatim>\<open>Exception\<close>, the returned response has \<^verbatim>\<open>success = False\<close>, \<^verbatim>\<open>confidence = 0\<close> and an
  empty \<^verbatim>\<open>tools_used\<close>. The breaker is consulted only by an admitted request that the
  cache does not answer.
\<close>

theorem execute_returns_unless_escape:
  "((\<exists>r. fst (execute h b clk m out) = Inr r) \<longleftrightarrow>
      \<not> (admitted b clk \<and> cache_lookup h b clk m = None \<and> \<not> breaker_rejects b clk \<and>
         escapes out)) \<and>
   (\<not> admitted b clk \<longrightarrow> failed_result (fst (execute h b clk m out))) \<and>
   (admitted b clk \<and> cache_lookup h b clk m = None \<and> breaker_rejects b clk \<longrightarrow>
      failed_result (fst (execute h b clk m out)) \<and>
      backend_calls (fst (snd (execute h b clk m out))) = 0) \<and>
   (admitted b clk \<and> cache_lookup h b clk m = None \<and> \<not> breaker_rejects b clk \<longrightarrow>
      failed_result (fst (execute h b clk m (Raises (Exc e)))))"
proof (intro conjI impI)
  show "(\<exists>r. fst (execute h b clk m out) = Inr r) \<longleftrightarrow>
      \<not> (admitted b clk \<and> cache_lookup h b clk m = None \<and> \<not> breaker_rejects b clk \<and>
         escapes out)"
  proof (cases "admitted b clk")
    case False
    then show ?thesis by (simp add: execute_rate_limited)
  next
    case adm: True
    show ?thesis
    proof (cases "cache_lookup h b clk m")
      case (Some r)
      with adm show ?thesis by (simp add: execute_cache_hit)
    next
      case miss: None
      show ?thesis
      proof (cases "breaker_rejects b clk")
        case True
        then obtain e' where "call_gate (circuit_breaker b) (t_gate clk) = Inl (Exc e')"
          using gate_rejects by blast
        from execute_breaker_rejects [OF adm miss this] True show ?thesis by simp
      next
        case pass: False
        show ?thesis
        proof (cases out)
          case (Returns r)
          with execute_backend_returns [OF adm miss pass] show ?thesis
            by (simp add: escapes_def)
        next
          case (Raises x)
          show ?thesis
          proof (cases "is_Exception x")
            case True
            then obtain e' where "x = Exc e'" by (cases x) simp_all
            with Raises execute_backend_raises [OF adm miss pass] show ?thesis
              by (simp add: escapes_def)
          next
            case False
            with Raises adm miss pass execute_backend_escapes [OF adm miss pass False]
            show ?thesis
              by (simp add: escapes_def)
          qed
        qed
      qed
    qed
  qed
next
  assume "\<not> admitted b clk"
  then show "failed_result (fst (execute h b clk m out))"
    by (simp add: execute_rate_limited failed_error_response)
next
  assume a: "admitted b clk \<and> cache_lookup h b clk m = None \<and> breaker_rejects b clk"
  then obtain e' where g: "call_gate (circuit_breaker b) (t_gate clk) = Inl (Exc e')"
    using gate_rejects by blast
  from a have adm: "admitted b clk" and miss: "cache_lookup h b clk m = None"
    by simp_all
  note x = execute_breaker_rejects [OF adm miss g]
  show "failed_result (fst (execute h b clk m out))"
    by (simp add: x failed_error_response)
  show "backend_calls (fst (snd (execute h b clk m out))) = 0"
    by (simp add: x backend_calls_def)
next
  assume "admitted b clk \<and> cache_lookup h b clk m = None \<and> \<not> breaker_rejects b clk"
  then show "failed_result (fst (execute h b clk m (Raises (Exc e))))"
    by (simp add: execute_backend_raises failed_error_response)
qed

text \<open>
  The theorem at three requests: one on the bridge with the empty bucket, one at time 1 on
  the bridge whose breaker opened at time 0, and one on the new bridge whose backend raises
  an \<^verbatim>\<open>Exception\<close>. Each of them returns a response.
\<close>

theorem execute_returns_unless_escape_witness:
  "\<not> admitted drained_bridge (clock_at 0) \<and>
   failed_result (fst (execute sample_hash drained_bridge (clock_at 0) sample_message
     (Returns sample_response))) \<and>
   admitted tripped_bridge (clock_at 1) \<and>
   cache_lookup sample_hash tripped_bridge (clock_at 1) sample_message = None \<and>
   breaker_rejects tripped_bridge (clock_at 1) \<and>
   failed_result (fst (execute sample_hash tripped_bridge (clock_at 1) sample_message
     (Returns sample_response))) \<and>
   backend_calls (fst (snd (execute sample_hash tripped_bridge (clock_at 1) sample_message
     (Returns sample_response)))) = 0 \<and>
   admitted fresh_bridge (clock_at 0) \<and>
   cache_lookup sample_hash fresh_bridge (clock_at 0) sample_message = None \<and>
   \<not> breaker_rejects fresh_bridge (clock_at 0) \<and>
   \<not> escapes boom \<and>
   (\<exists>r. fst (execute sample_hash fresh_bridge (clock_at 0) sample_message boom) = Inr r) \<and>
   failed_result (fst (execute sample_hash fresh_bridge (clock_at 0) sample_message boom))"
  using
    execute_returns_unless_escape [where b = drained_bridge and clk = "clock_at 0"
      and h = sample_hash and m = sample_message and out = "Returns sample_response"]
    execute_returns_unless_escape [where b = tripped_bridge and clk = "clock_at 1"
      and h = sample_hash and m = sample_message and out = "Returns sample_response"]
    execute_returns_unless_escape [where b = fresh_bridge and clk = "clock_at 0"
      and h = sample_hash and m = sample_message and out = boom
      and e = "Exception ''backend down''"]
    drained_not_admitted tripped_admitted [of 1] tripped_miss tripped_rejects
    fresh_admitted fresh_miss fresh_passes
  by (simp add: boom_def escapes_def)

text \<open>
  C1 as the spec states it fails. On the new bridge the request is admitted, not cached and
  let through by the closed breaker; the backend call is cancelled, so awaiting it raises
  \<^verbatim>\<open>asyncio.CancelledError\<close>. Neither \<^verbatim>\<open>except Exception\<close> block handles it: \<^verbatim>\<open>execute\<close>
  returns no response and the exception reaches the caller.
\<close>

theorem cancelled_backend_call_propagates:
  "admitted fresh_bridge (clock_at 0) \<and>
   cache_lookup sample_hash fresh_bridge (clock_at 0) sample_message = None \<and>
   \<not> breaker_rejects fresh_bridge (clock_at 0) \<and>
   fst (execute sample_hash fresh_bridge (clock_at 0) sample_message (Raises CancelledError)) =
     Inl CancelledError"
  using fresh_admitted fresh_miss fresh_passes
  by (simp add: execute_backend_escapes)

text \<open>
  C8, as the code has it. The \<^verbatim>\<open>except\<close> block of \<^verbatim>\<open>execute\<close> builds one response for
  every exception, with the fixed content "I apologize, but I encountered an error. Please
  try again."; what tells the failures apart is the exception handed to \<^verbatim>\<open>end_trace\<close>:
  "Rate limit exceeded - please retry" for an admission rejection, "Circuit breaker is
  open" for a rejection by the open breaker, and the backend's own exception for a backend
  failure.
\<close>

theorem failure_content_is_generic:
  "(\<not> admitted b clk \<longrightarrow>
      fst (execute h b clk m out) = Inr (error_response (t_end clk - t_start clk)) \<and>
      traced_errors (fst (snd (execute h b clk m out))) =
        [Exception ''Rate limit exceeded - please retry'']) \<and>
   (admitted b clk \<and> cache_lookup h b clk m = None \<and> state (circuit_breaker b) = Open \<and>
    last_failure (circuit_breaker b) = Some lf \<and> t_gate clk - lf \<le> timeout (circuit_breaker b) \<longrightarrow>
      fst (execute h b clk m out) = Inr (error_response (t_end clk - t_start clk)) \<and>
      traced_errors (fst (snd (execute h b clk m out))) =
        [Exception ''Circuit breaker is open'']) \<and>
   (admitted b clk \<and> cache_lookup h b clk m = None \<and> \<not> breaker_rejects b clk \<longrightarrow>
      fst (execute h b clk m (Raises (Exc e))) =
        Inr (error_response (t_end clk - t_start clk)) \<and>
      traced_errors (fst (snd (execute h b clk m (Raises (Exc e))))) = [e]) \<and>
   content (error_response l) = ''I apologize, but I encountered an error. Please try again.''"
proof (intro conjI impI)
  assume "\<not> admitted b clk"
  then show "fst (execute h b clk m out) = Inr (error_response (t_end clk - t_start clk))"
    and "traced_errors (fst (snd (execute h b clk m out))) =
        [Exception ''Rate limit exceeded - please retry'']"
    by (simp_all add: execute_rate_limited latency_of_def)
next
  assume a: "admitted b clk \<and> cache_lookup h b clk m = None \<and>
    state (circuit_breaker b) = Open \<and> last_failure (circuit_breaker b) = Some lf \<and>
    t_gate clk - lf \<le> timeout (circuit_breaker b)"
  then have g: "call_gate (circuit_breaker b) (t_gate clk) =
      Inl (Exc (Exception ''Circuit breaker is open''))"
    by (simp add: call_gate_def)
  from a have adm: "admitted b clk" and miss: "cache_lookup h b clk m = None"
    by simp_all
  note x = execute_breaker_rejects [OF adm miss g]
  show "fst (execute h b clk m out) = Inr (error_response (t_end clk - t_start clk))"
    and "traced_errors (fst (snd (execute h b clk m out))) =
        [Exception ''Circuit breaker is open'']"
    by (simp_all add: x latency_of_def)
next
  assume "admitted b clk \<and> cache_lookup h b clk m = None \<and> \<not> breaker_rejects b clk"
  then show "fst (execute h b clk m (Raises (Exc e))) =
      Inr (error_response (t_end clk - t_start clk))"
    and "traced_errors (fst (snd (execute h b clk m (Raises (Exc e))))) = [e]"
    by (simp_all add: execute_backend_raises latency_of_def)
next
  show "content (error_response l) =
      ''I apologize, but I encountered an error. Please try again.''"
    by (simp add: error_response_def)
qed

text \<open>The theorem at the three failing requests of the witness of C1.\<close>

theorem failure_content_is_generic_witness:
  "\<not> admitted drained_bridge (clock_at 0) \<and>
   result_content (fst (execute sample_hash drained_bridge (clock_at 0) sample_message boom)) =
     Some ''I apologize, but I encountered an error. Please try again.'' \<and>
   traced_errors (fst (snd (execute sample_hash drained_bridge (clock_at 0) sample_message boom))) =
     [Exception ''Rate limit exceeded - please retry''] \<and>
   admitted tripped_bridge (clock_at 1) \<and>
   cache_lookup sample_hash tripped_bridge (clock_at 1) sample_message = None \<and>
   state (circuit_breaker tripped_bridge) = Open \<and>
   last_failure (circuit_breaker tripped_bridge) = Some 0 \<and>
   t_gate (clock_at 1) - 0 \<le> timeout (circuit_breaker tripped_bridge) \<and>
   result_content (fst (execute sample_hash tripped_bridge (clock_at 1) sample_message boom)) =
     Some ''I apologize, but I encountered an error. Please try again.'' \<and>
   traced_errors (fst (snd (execute sample_hash tripped_bridge (clock_at 1) sample_message boom))) =
     [Exception ''Circuit breaker is open''] \<and>
   admitted fresh_bridge (clock_at 0) \<and>
   cache_lookup sample_hash fresh_bridge (clock_at 0) sample_message = None \<and>
   \<not> breaker_rejects fresh_bridge (clock_at 0) \<and>
   result_content (fst (execute sample_hash fresh_bridge (clock_at 0) sample_message boom)) =
     Some ''I apologize, but I encountered an error. Please try again.'' \<and>
   traced_errors (fst (snd (execute sample_hash fresh_bridge (clock_at 0) sample_message boom))) =
     [Exception ''backend down'']"
  using
    failure_content_is_generic [where b = drained_bridge and clk = "clock_at 0"
      and h = sample_hash and m = sample_message and out = boom]
    failure_content_is_generic [where b = tripped_bridge and clk = "clock_at 1"
      and h = sample_hash and m = sample_message and out = boom and lf = 0]
    failure_content_is_generic [where b = fresh_bridge and clk = "clock_at 0"
      and h = sample_hash and m = sample_message and e = "Exception ''backend down''"]
    drained_not_admitted tripped_admitted [of 1] tripped_miss tripped_open
    fresh_admitted fresh_miss fresh_passes
  by (simp add: boom_def result_content_def clock_at_simps)

text \<open>
  C8 as the spec states it fails. The rate-limited request on the bridge with the empty
  bucket, the request that the open breaker rejects and the request whose backend raises
  return responses with the same content: the message does not tell an admission rejection
  from a breaker-open or a backend failure.
\<close>

theorem failure_classes_share_content:
  "\<not> admitted drained_bridge (clock_at 0) \<and>
   admitted tripped_bridge (clock_at 1) \<and>
   breaker_rejects tripped_bridge (clock_at 1) \<and>
   admitted fresh_bridge (clock_at 0) \<and>
   \<not> breaker_rejects fresh_bridge (clock_at 0) \<and>
   result_content (fst (execute sample_hash drained_bridge (clock_at 0) sample_message boom)) =
     result_content (fst (execute sample_hash tripped_bridge (clock_at 1) sample_message boom)) \<and>
   result_content (fst (execute sample_hash drained_bridge (clock_at 0) sample_message boom)) =
     result_content (fst (execute sample_hash fresh_bridge (clock_at 0) sample_message boom)) \<and>
   result_content (fst (execute sample_hash drained_bridge (clock_at 0) sample_message boom)) =
     Some ''I apologize, but I encountered an error. Please try again.''"
proof -
  have a: "fst (execute sample_hash drained_bridge (clock_at 0) sample_message boom) =
      Inr (error_response 0)"
    by (simp add: execute_rate_limited [OF drained_not_admitted] latency_of_def clock_at_simps)
  have "call_gate (circuit_breaker tripped_bridge) (t_gate (clock_at 1)) =
      Inl (Exc (Exception ''Circuit breaker is open''))"
    by (simp add: call_gate_def tripped_open clock_at_simps)
  from execute_breaker_rejects [OF tripped_admitted tripped_miss this]
  have b: "fst (execute sample_hash tripped_bridge (clock_at 1) sample_message boom) =
      Inr (error_response 0)"
    by (simp add: latency_of_def clock_at_simps)
  have c: "fst (execute sample_hash fresh_bridge (clock_at 0) sample_message boom) =
      Inr (error_response 0)"
    unfolding boom_def
    by (simp add: execute_backend_raises [OF fresh_admitted fresh_miss fresh_passes]
        latency_of_def clock_at_simps)
  show ?thesis
    using drained_not_admitted tripped_admitted [of 1] tripped_rejects fresh_admitted
      fresh_passes
    by (simp add: a b c result_content_def error_response_def)
qed

subsection \<open>The aggregate counters\<close>

text \<open>
  C2, as the code has it. What \<^verbatim>\<open>execute\<close> does to \<^verbatim>\<open>request_count\<close>, \<^verbatim>\<open>total_latency\<close>
  and \<^verbatim>\<open>error_count\<close> depends on the path. A rate-limited request, a request that the
  breaker rejects and a request whose backend raises add 1 to \<^verbatim>\<open>error_count\<close> and leave
  the other two as they are. A request that the backend answers adds 1 to
  \<^verbatim>\<open>request_count\<close> and the latency to \<^verbatim>\<open>total_latency\<close> and leaves \<^verbatim>\<open>error_count\<close>. A
  request answered from the cache changes none of the three.
\<close>

theorem counters_by_path:
  "(\<not> admitted b clk \<longrightarrow>
      counters (snd (snd (execute h b clk m out))) =
        (request_count b, total_latency b, error_count b + 1)) \<and>
   (admitted b clk \<and> cache_lookup h b clk m = Some r \<longrightarrow>
      counters (snd (snd (execute h b clk m out))) = counters b) \<and>
   (admitted b clk \<and> cache_lookup h b clk m = None \<and> breaker_rejects b clk \<longrightarrow>
      counters (snd (snd (execute h b clk m out))) =
        (request_count b, total_latency b, error_count b + 1)) \<and>
   (admitted b clk \<and> cache_lookup h b clk m = None \<and> \<not> breaker_rejects b clk \<longrightarrow>
      counters (snd (snd (execute h b clk m (Raises (Exc e))))) =
        (request_count b, total_latency b, error_count b + 1) \<and>
      counters (snd (snd (execute h b clk m (Returns r')))) =
        (request_count b + 1, total_latency b + (t_end clk - t_start clk), error_count b))"
proof (intro conjI impI)
  assume "\<not> admitted b clk"
  then show "counters (snd (snd (execute h b clk m out))) =
      (request_count b, total_latency b, error_count b + 1)"
    by (simp add: execute_rate_limited counters_def)
next
  assume "admitted b clk \<and> cache_lookup h b clk m = Some r"
  then show "counters (snd (snd (execute h b clk m out))) = counters b"
    by (simp add: execute_cache_hit counters_def)
next
  assume a: "admitted b clk \<and> cache_lookup h b clk m = None \<and> breaker_rejects b clk"
  then obtain e' where g: "call_gate (circuit_breaker b) (t_gate clk) = Inl (Exc e')"
    using gate_rejects by blast
  from a have adm: "admitted b clk" and miss: "cache_lookup h b clk m = None"
    by simp_all
  show "counters (snd (snd (execute h b clk m out))) =
      (request_count b, total_latency b, error_count b + 1)"
    by (simp add: execute_breaker_rejects [OF adm miss g] counters_def)
next
  assume a: "admitted b clk \<and> cache_lookup h b clk m = None \<and> \<not> breaker_rejects b clk"
  then show "counters (snd (snd (execute h b clk m (Raises (Exc e))))) =
      (request_count b, total_latency b, error_count b + 1)"
    by (simp add: execute_backend_raises counters_def)
  from a show "counters (snd (snd (execute h b clk m (Returns r')))) =
      (request_count b + 1, total_latency b + (t_end clk - t_start clk), error_count b)"
    by (simp add: execute_backend_returns counters_def latency_of_def)
qed

text \<open>
  The theorem on each path: the bridge with the empty bucket; the bridge that has cached
  the request, asked again from time 1 to time 2; the bridge with the open breaker; and
  the new bridge, with a backend that raises and with one that returns.
\<close>

theorem counters_by_path_witness:
  "\<not> admitted drained_bridge (clock_at 0) \<and>
   counters (snd (snd (execute sample_hash drained_bridge (clock_at 0) sample_message boom))) =
     (0, 0, 1) \<and>
   admitted warm_bridge ((clock_at 1)\<lparr>t_end := 2\<rparr>) \<and>
   cache_lookup sample_hash warm_bridge ((clock_at 1)\<lparr>t_end := 2\<rparr>) sample_message =
     Some sample_response \<and>
   counters (snd (snd (execute sample_hash warm_bridge ((clock_at 1)\<lparr>t_end := 2\<rparr>)
     sample_message boom))) = (1, 0, 0) \<and>
   admitted tripped_bridge (clock_at 1) \<and>
   cache_lookup sample_hash tripped_bridge (clock_at 1) sample_message = None \<and>
   breaker_rejects tripped_bridge (clock_at 1) \<and>
   counters (snd (snd (execute sample_hash tripped_bridge (clock_at 1) sample_message boom))) =
     (0, 0, 6) \<and>
   admitted fresh_bridge (clock_at 0) \<and>
   cache_lookup sample_hash fresh_bridge (clock_at 0) sample_message = None \<and>
   \<not> breaker_rejects fresh_bridge (clock_at 0) \<and>
   counters (snd (snd (execute sample_hash fresh_bridge (clock_at 0) sample_message boom))) =
     (0, 0, 1) \<and>
   counters (snd (snd (execute sample_hash fresh_bridge (clock_at 0) sample_message
     (Returns sample_response)))) = (1, 0, 0)"
  using
    counters_by_path [where b = drained_bridge and clk = "clock_at 0" and h = sample_hash
      and m = sample_message and out = boom]
    counters_by_path [where b = warm_bridge and clk = "(clock_at 1)\<lparr>t_end := 2\<rparr>"
      and h = sample_hash and m = sample_message and out = boom and r = sample_response]
    counters_by_path [where b = tripped_bridge and clk = "clock_at 1" and h = sample_hash
      and m = sample_message and out = boom]
    counters_by_path [where b = fresh_bridge and clk = "clock_at 0" and h = sample_hash
      and m = sample_message and e = "Exception ''backend down''" and r' = sample_response]
    drained_not_admitted warm_admitted(2) [of 1 2] warm_hit tripped_admitted [of 1]
    tripped_miss tripped_rejects fresh_admitted fresh_miss fresh_passes
  by (simp add: boom_def counters_def drained_bridge_def fresh_bridge_eq warm_bridge_eq
      tripped_bridge_eq clock_at_def)

text \<open>
  C2 as the spec states it fails on the cache-hit path. The bridge that has cached the
  request is asked again; the call starts at time 1 and ends at time 2, returns the cached
  response, and leaves \<^verbatim>\<open>request_count\<close>, \<^verbatim>\<open>total_latency\<close> and \<^verbatim>\<open>error_count\<close> as they were.
\<close>

theorem cache_hit_updates_no_counter:
  "admitted warm_bridge ((clock_at 1)\<lparr>t_end := 2\<rparr>) \<and>
   fst (execute sample_hash warm_bridge ((clock_at 1)\<lparr>t_end := 2\<rparr>) sample_message boom) =
     Inr sample_response \<and>
   request_count (snd (snd (execute sample_hash warm_bridge ((clock_at 1)\<lparr>t_end := 2\<rparr>)
     sample_message boom))) = request_count warm_bridge \<and>
   total_latency (snd (snd (execute sample_hash warm_bridge ((clock_at 1)\<lparr>t_end := 2\<rparr>)
     sample_message boom))) = total_latency warm_bridge \<and>
   error_count (snd (snd (execute sample_hash warm_bridge ((clock_at 1)\<lparr>t_end := 2\<rparr>)
     sample_message boom))) = error_count warm_bridge"
proof -
  have adm: "admitted warm_bridge ((clock_at 1)\<lparr>t_end := 2\<rparr>)"
    by (rule warm_admitted) simp
  show ?thesis
    by (simp add: execute_cache_hit [OF adm warm_hit] adm)
qed

subsection \<open>The cache\<close>

text \<open>
  C9. After \<^verbatim>\<open>_update_cache(k, r)\<close> at time \<open>now\<close>, a \<^verbatim>\<open>_check_cache(k)\<close> at time \<open>now'\<close>
  returns \<open>r\<close> and leaves the cache as it is while less than the TTL has elapsed; with
  the TTL of a constructed bridge this is so at once (\<open>now' = now\<close>). Once the TTL has
  elapsed it returns \<^verbatim>\<open>None\<close> and the entry is deleted from the cache.
\<close>

theorem cache_put_then_get:
  "(now' - now < cache_ttl b \<longrightarrow>
      check_cache (update_cache b k r now) k now' = (Some r, update_cache b k r now)) \<and>
   (cache_ttl b \<le> now' - now \<longrightarrow>
      fst (check_cache (update_cache b k r now) k now') = None \<and>
      cache (snd (check_cache (update_cache b k r now) k now')) = (cache b)(k := None)) \<and>
   fst (check_cache (update_cache (HybridAgentBridge_init t0) k r now) k now) = Some r"
  by (simp add: check_cache_def update_cache_def HybridAgentBridge_init_def)

text \<open>The theorem on the new bridge: a read at once, and a read when 300 seconds have
  elapsed.\<close>

theorem cache_put_then_get_witness:
  "0 - 0 < cache_ttl fresh_bridge \<and>
   fst (check_cache (update_cache fresh_bridge (MsgKey 17) sample_response 0) (MsgKey 17) 0) =
     Some sample_response \<and>
   cache_ttl fresh_bridge \<le> 300 - 0 \<and>
   fst (check_cache (update_cache fresh_bridge (MsgKey 17) sample_response 0) (MsgKey 17) 300) =
     None \<and>
   cache (snd (check_cache (update_cache fresh_bridge (MsgKey 17) sample_response 0)
     (MsgKey 17) 300)) (MsgKey 17) = None"
  using cache_put_then_get [where now' = 0 and now = 0 and b = fresh_bridge
      and k = "MsgKey 17" and r = sample_response]
    cache_put_then_get [where now' = 300 and now = 0 and b = fresh_bridge
      and k = "MsgKey 17" and r = sample_response]
  by (simp add: fresh_bridge_eq)

text \<open>
  C3, as the code has it. \<^verbatim>\<open>execute\<close> stores a response in the cache only when the
  backend handler returns one; a call that ends in the \<^verbatim>\<open>except\<close> block stores nothing.
  Take two admitted calls with the same content, where the first is answered from the
  cache or by a backend handler that returns, the entry of that content is the same when
  the second call starts as when the first ended (as it is when the second call follows
  the first), and the second reads the cache less than the TTL after the timestamp of
  that entry. Then the second call returns the response of the first (so the same success
  flag) from the cache, and the backend handler is invoked at most once across the two
  calls.
\<close>

theorem second_call_served_from_cache:
  assumes first: "execute h b clk1 m1 out1 = (res1, evs1, b1)"
    and second: "execute h b1' clk2 m2 out2 = (res2, evs2, b2)"
    and same: "msg_content m2 = msg_content m1"
    and adm1: "admitted b clk1"
    and ok1: "cache_lookup h b clk1 m1 = Some r1 \<or>
       (cache_lookup h b clk1 m1 = None \<and> \<not> breaker_rejects b clk1 \<and> out1 = Returns r1)"
    and kept: "cache b1' (get_cache_key h m1) = cache b1 (get_cache_key h m1)"
    and adm2: "admitted b1' clk2"
    and entry: "cache b1 (get_cache_key h m1) = Some entry"
    and fresh: "t_cache clk2 - entry_timestamp entry < cache_ttl b1'"
  shows "res1 = Inr r1 \<and> res2 = Inr r1 \<and> evs2 = [Metric ''cache_hit'' 1] \<and>
    backend_calls (evs1 @ evs2) \<le> 1"
proof -
  have key: "get_cache_key h m2 = get_cache_key h m1"
    using same by (rule get_cache_key_content)
  have one: "res1 = Inr r1 \<and> entry_response entry = r1 \<and> backend_calls evs1 \<le> 1"
    using ok1
  proof
    assume hit: "cache_lookup h b clk1 m1 = Some r1"
    then obtain e where e: "cache b (get_cache_key h m1) = Some e" "entry_response e = r1"
      "after_lookup h b clk1 m1 = after_admission b clk1"
      using cache_lookup_Some by blast
    from execute_cache_hit [OF adm1 hit, of out1] first
    have "res1 = Inr r1" "evs1 = [Metric ''cache_hit'' 1]" "b1 = after_lookup h b clk1 m1"
      by simp_all
    with e entry show ?thesis
      by (simp add: backend_calls_def)
  next
    assume "cache_lookup h b clk1 m1 = None \<and> \<not> breaker_rejects b clk1 \<and> out1 = Returns r1"
    then have miss: "cache_lookup h b clk1 m1 = None" and pass: "\<not> breaker_rejects b clk1"
      and out: "out1 = Returns r1"
      by simp_all
    from execute_backend_returns [OF adm1 miss pass, of r1] first out entry
    show ?thesis
      by (auto simp: backend_calls_def)
  qed
  from kept entry have "cache b1' (get_cache_key h m1) = Some entry"
    by simp
  from cache_lookup_hit [OF this fresh key]
  have hit2: "cache_lookup h b1' clk2 m2 = Some (entry_response entry)" .
  from execute_cache_hit [OF adm2 hit2, of out2] second one
  have "res2 = Inr r1" "evs2 = [Metric ''cache_hit'' 1]"
    by simp_all
  with one show ?thesis
    by (simp add: backend_calls_def)
qed

text \<open>
  The theorem at the new bridge: the first call at time 0 is answered by the backend, the
  second at time 299 has a backend that would raise and is answered from the cache.
\<close>

theorem second_call_served_from_cache_witness:
  "admitted fresh_bridge (clock_at 0) \<and>
   cache_lookup sample_hash fresh_bridge (clock_at 0) sample_message = None \<and>
   \<not> breaker_rejects fresh_bridge (clock_at 0) \<and>
   admitted warm_bridge (clock_at 299) \<and>
   t_cache (clock_at 299) - 0 < cache_ttl warm_bridge \<and>
   fst (execute sample_hash fresh_bridge (clock_at 0) sample_message (Returns sample_response)) =
     Inr sample_response \<and>
   fst (execute sample_hash warm_bridge (clock_at 299) sample_message boom) =
     Inr sample_response \<and>
   backend_calls
     (fst (snd (execute sample_hash fresh_bridge (clock_at 0) sample_message
        (Returns sample_response))) @
      fst (snd (execute sample_hash warm_bridge (clock_at 299) sample_message boom))) \<le> 1"
proof -
  have adm2: "admitted warm_bridge (clock_at 299)"
    by (rule warm_admitted) simp
  have fresh: "t_cache (clock_at 299) -
      entry_timestamp \<lparr>entry_response = sample_response, entry_timestamp = 0\<rparr> <
      cache_ttl warm_bridge"
    by (simp add: clock_at_def warm_bridge_eq)
  have ok1: "cache_lookup sample_hash fresh_bridge (clock_at 0) sample_message =
       Some sample_response \<or>
     (cache_lookup sample_hash fresh_bridge (clock_at 0) sample_message = None \<and>
      \<not> breaker_rejects fresh_bridge (clock_at 0) \<and>
      Returns sample_response = Returns sample_response)"
    using fresh_miss fresh_passes by simp
  obtain res2 evs2 b2
    where second: "execute sample_hash warm_bridge (clock_at 299) sample_message boom =
      (res2, evs2, b2)"
    by (cases "execute sample_hash warm_bridge (clock_at 299) sample_message boom")
  from second_call_served_from_cache
    [OF warm_bridge_first second refl fresh_admitted ok1 refl adm2 warm_entry fresh]
  show ?thesis
    using fresh_admitted fresh_miss fresh_passes adm2 fresh
    by (auto simp: warm_bridge_first second)
qed

text \<open>
  C3 as the spec states it fails when the first call fails. On the new bridge the backend
  raises in the call at time 0 and returns in the call at time 1 with the same content:
  both calls are admitted, one second apart with a TTL of 300, the backend handler is
  invoked twice, and the success flags of the two results differ.
\<close>

theorem failed_first_call_is_not_cached:
  "admitted fresh_bridge (clock_at 0) \<and>
   admitted (snd (snd (execute sample_hash fresh_bridge (clock_at 0) sample_message boom)))
     (clock_at 1) \<and>
   t_cache (clock_at 1) - t_store (clock_at 0) < cache_ttl fresh_bridge \<and>
   fst (executes sample_hash fresh_bridge
     [(clock_at 0, sample_message, boom), (clock_at 1, sample_message, Returns sample_response)]) =
     [Inr (error_response 0), Inr sample_response] \<and>
   backend_calls (fst (snd (executes sample_hash fresh_bridge
     [(clock_at 0, sample_message, boom), (clock_at 1, sample_message, Returns sample_response)]))) =
     2 \<and>
   success (error_response 0) \<noteq> success sample_response"
  by (simp add: fresh_bridge_eq eval_defs admitted_def backend_calls_def sample_response_def)

subsection \<open>A returned failure is a success to the bridge\<close>

text \<open>
  C10. When the backend handler returns a response, whatever its \<^verbatim>\<open>success\<close> flag (so
  also one with \<^verbatim>\<open>success = False\<close>, as the prototype returns from its own \<^verbatim>\<open>except\<close>
  block), the breaker counts no failure: its counter stays as it is when the breaker was
  closed and becomes 0 otherwise, and the breaker is closed afterwards, so a half-open
  trial closes it. The bridge returns the response, stores it in the cache under the key
  of the request, records \<^verbatim>\<open>request_success\<close> and no \<^verbatim>\<open>request_error\<close>, adds 1 to
  \<^verbatim>\<open>request_count\<close> and leaves \<^verbatim>\<open>error_count\<close>. The events and the bridge are those of the
  same response with \<^verbatim>\<open>success = True\<close>, the cached response apart.
\<close>

theorem returned_failure_handled_as_success:
  assumes "admitted b clk" and "cache_lookup h b clk m = None" and "\<not> breaker_rejects b clk"
  shows "(let (res, evs, b') = execute h b clk m (Returns r)
          in res = Inr r \<and>
             failures (circuit_breaker b') =
               (if state (circuit_breaker b) = Closed then failures (circuit_breaker b) else 0) \<and>
             state (circuit_breaker b') = Closed \<and>
             cache b' (get_cache_key h m) =
               Some \<lparr>entry_response = r, entry_timestamp = t_store clk\<rparr> \<and>
             Metric ''request_success'' 1 \<in> set evs \<and>
             Metric ''request_error'' 1 \<notin> set evs \<and>
             request_count b' = request_count b + 1 \<and>
             error_count b' = error_count b \<and>
             fst (snd (execute h b clk m (Returns (r\<lparr>success := True\<rparr>)))) = evs \<and>
             update_cache (snd (snd (execute h b clk m (Returns (r\<lparr>success := True\<rparr>)))))
               (get_cache_key h m) r (t_store clk) = b')"
  by (simp add: execute_backend_returns [OF assms] update_cache_def)

text \<open>
  The theorem at the bridge whose breaker opened at time 0, asked at time 61: the call is
  the trial, and the backend returns the failed response of the prototype.
\<close>

theorem returned_failure_handled_as_success_witness:
  "admitted tripped_bridge (clock_at 61) \<and>
   cache_lookup sample_hash tripped_bridge (clock_at 61) sample_message = None \<and>
   \<not> breaker_rejects tripped_bridge (clock_at 61) \<and>
   \<not> success failed_response \<and>
   state (circuit_breaker tripped_bridge) = Open \<and>
   (let (res, evs, b') =
        execute sample_hash tripped_bridge (clock_at 61) sample_message (Returns failed_response)
    in res = Inr failed_response \<and>
       failures (circuit_breaker b') = 0 \<and>
       state (circuit_breaker b') = Closed \<and>
       cache b' (MsgKey 17) = Some \<lparr>entry_response = failed_response, entry_timestamp = 61\<rparr> \<and>
       Metric ''request_success'' 1 \<in> set evs \<and>
       request_count b' = 1 \<and> error_count b' = 5)"
proof -
  have adm: "admitted tripped_bridge (clock_at 61)"
    by (rule tripped_admitted) simp
  from returned_failure_handled_as_success
    [OF adm tripped_miss tripped_passes_later, of failed_response]
    adm tripped_miss [of 61] tripped_passes_later
  show ?thesis
    by (simp add: split_beta tripped_bridge_eq failed_response_def get_cache_key_def
        sample_hash_def sample_message_def clock_at_def)
qed

end
